theory Spec2Isabelle
  imports Complex_Main "HOL-Library.Sublist"
begin

section \<open>Link-prediction evaluation of the knowledge-graph-completion example\<close>

text \<open>
  The development embeds \<^verbatim>\<open>examples/pytorch/kg_completion/main.py\<close> (the class
  \<^verbatim>\<open>KGC\<close>, the function \<^verbatim>\<open>ranking_and_hits_this\<close> and the control flow of
  \<^verbatim>\<open>main\<close>) and the constructor and driver of
  \<^verbatim>\<open>examples/pytorch/text_classification/run_text_classifier.py\<close>.

  Modelling decisions, all of them visible in the definitions below:
  \<^item> Scores and the reported means are real numbers. The tensors of the source hold
    finite floating-point values; their order is the order of the reals they denote.
    NaN scores are outside the model. \<open>np_mean\<close> is the exact mean; the float64
    rounding of \<^verbatim>\<open>np.mean\<close> is modelled apart (\<open>mean_f64\<close>), for the one statement
    that depends on it.
  \<^item> Entity ids are natural numbers (the vocabulary indexes from 0). The filter tensors
    pass through \<^verbatim>\<open>.float()\<close> and \<^verbatim>\<open>.long()\<close>, which returns the ids unchanged for
    vocabularies below \<open>2^24\<close> entries; the model keeps the ids as they are.
  \<^item> Every Python exception is a value of \<open>py_error\<close>; a function that can raise
    returns \<open>py_error + 'a\<close> with \<open>Inl\<close> for the exception.
  \<^item> \<^verbatim>\<open>np.mean\<close> of an empty list is NaN, without an exception; it is \<open>None\<close> here.
\<close>

subsection \<open>Exceptions\<close>

datatype py_error =
    IndexError
  | Exception string
  | RuntimeError string
  | NameError string

subsection \<open>One row of the filtered setting (lines 119-131)\<close>

text \<open>
  \<^verbatim>\<open>pred1[i][filter1] = 0.0\<close>: an index assignment through an index tensor. Every index
  of the tensor is written, in order, duplicates included; an index outside the row
  raises.
\<close>

definition zero_all_known :: "real list \<Rightarrow> nat list \<Rightarrow> py_error + real list" where
  "zero_all_known row flt =
     (if list_all (\<lambda>j. j < length row) flt
      then Inr (fold (\<lambda>j r. r[j := 0]) flt row)
      else Inl IndexError)"

text \<open>
  The three statements applied to one score row:
  \<^verbatim>\<open>target_value1 = pred1[i, e2[i, 0].item()].item()\<close>,
  \<^verbatim>\<open>pred1[i][filter1] = 0.0\<close>,
  \<^verbatim>\<open>pred1[i][e2[i]] = target_value1\<close>.
  The second direction runs the same statements on \<^verbatim>\<open>pred2\<close>, \<^verbatim>\<open>e1\<close> and \<^verbatim>\<open>filter2\<close>.
\<close>

definition filter_step :: "real list \<Rightarrow> nat \<Rightarrow> nat list \<Rightarrow> py_error + real list" where
  "filter_step row target flt =
     (if target < length row then
        (let target_value = row ! target in
         case zero_all_known row flt of
           Inl err \<Rightarrow> Inl err
         | Inr zeroed \<Rightarrow> Inr (zeroed[target := target_value]))
      else Inl IndexError)"

subsection \<open>Sorting and ranking one row (lines 134-142)\<close>

text \<open>
  \<^verbatim>\<open>torch.sort(pred1, 1, descending=True)\<close> returns, for each row, the indices of the row
  in descending order of score. The routine belongs to the tensor library. The call
  does not ask for a stable sort, so the library fixes no order among equal scores;
  the definition takes the stable order that section 4.1 of the specification names.
  No statement below depends on the order among equal scores: \<open>rank0_between\<close>
  bounds the position of the target by the scores alone.
\<close>

definition argsort_desc :: "real list \<Rightarrow> nat list" where
  "argsort_desc row = sort_key (\<lambda>j. - (row ! j)) [0..<length row]"

fun first_index :: "nat list \<Rightarrow> nat \<Rightarrow> nat option" where
  "first_index [] t = None"
| "first_index (x # xs) t = (if x = t then Some 0 else map_option Suc (first_index xs t))"

text \<open>\<^verbatim>\<open>np.where(argsort1[i] == target)[0][0]\<close>; the final \<^verbatim>\<open>[0]\<close> raises when nothing matches.\<close>

definition np_where_first :: "nat list \<Rightarrow> nat \<Rightarrow> py_error + nat" where
  "np_where_first xs t =
     (case first_index xs t of None \<Rightarrow> Inl IndexError | Some k \<Rightarrow> Inr k)"

text \<open>The zero-based rank of the target in an already filtered row.\<close>

definition rank0 :: "real list \<Rightarrow> nat \<Rightarrow> py_error + nat" where
  "rank0 row target = np_where_first (argsort_desc row) target"

text \<open>
  The rank that is appended to the rank lists for one row of one direction: filter,
  sort, locate the target, add one (\<^verbatim>\<open>rank1 + 1\<close>).
\<close>

definition filtered_rank :: "real list \<Rightarrow> nat \<Rightarrow> nat list \<Rightarrow> py_error + nat" where
  "filtered_rank row target flt =
     (case filter_step row target flt of
        Inl err \<Rightarrow> Inl err
      | Inr filtered \<Rightarrow>
          (case rank0 filtered target of
             Inl err \<Rightarrow> Inl err
           | Inr r \<Rightarrow> Inr (r + 1)))"

subsection \<open>Accumulators (lines 86-95, 144-163)\<close>

record accumulators =
  hits_left :: "real list list"
  hits_right :: "real list list"
  hits :: "real list list"
  ranks :: "nat list"
  ranks_left :: "nat list"
  ranks_right :: "nat list"

definition fresh :: accumulators where
  "fresh =
     \<lparr>hits_left = replicate 10 [], hits_right = replicate 10 [], hits = replicate 10 [],
      ranks = [], ranks_left = [], ranks_right = []\<rparr>"

text \<open>\<^verbatim>\<open>1.0 if rank1 <= hits_level else 0.0\<close>, on the zero-based rank.\<close>

definition hit :: "nat \<Rightarrow> nat \<Rightarrow> real" where
  "hit rank hits_level = (if rank \<le> hits_level then 1 else 0)"

text \<open>The body of the second loop for one example, given its two zero-based ranks.\<close>

definition record_ranks :: "accumulators \<Rightarrow> nat \<Rightarrow> nat \<Rightarrow> accumulators" where
  "record_ranks a rank1 rank2 =
     a\<lparr>ranks := ranks a @ [rank1 + 1, rank2 + 1],
       ranks_left := ranks_left a @ [rank1 + 1],
       ranks_right := ranks_right a @ [rank2 + 1],
       hits := map (\<lambda>l. hits a ! l @ [hit rank1 l, hit rank2 l]) [0..<10],
       hits_left := map (\<lambda>l. hits_left a ! l @ [hit rank1 l]) [0..<10],
       hits_right := map (\<lambda>l. hits_right a ! l @ [hit rank2 l]) [0..<10]\<rparr>"

subsection \<open>One batch and one evaluation pass (lines 97-163)\<close>

text \<open>
  Row \<open>i\<close> of a batch: \<^verbatim>\<open>e1[i, 0]\<close>, \<^verbatim>\<open>e2[i, 0]\<close>, the filter tensors
  \<^verbatim>\<open>e2_multi1[i]\<close> and \<^verbatim>\<open>e2_multi2[i]\<close>, and the rows \<^verbatim>\<open>pred1[i]\<close>, \<^verbatim>\<open>pred2[i]\<close> that the
  model returned for the batch. A batch is the list of its rows, so all tensors of a
  batch agree on the batch dimension.
\<close>

record example =
  e1 :: nat
  e2 :: nat
  e2_multi1 :: "nat list"
  e2_multi2 :: "nat list"
  pred1 :: "real list"
  pred2 :: "real list"

text \<open>First inner loop (lines 117-131): both score matrices are filtered row by row.\<close>

fun filter_batch :: "example list \<Rightarrow> py_error + (real list \<times> real list) list" where
  "filter_batch [] = Inr []"
| "filter_batch (x # xs) =
     (case filter_step (pred1 x) (e2 x) (e2_multi1 x) of
        Inl err \<Rightarrow> Inl err
      | Inr p1 \<Rightarrow>
          (case filter_step (pred2 x) (e1 x) (e2_multi2 x) of
             Inl err \<Rightarrow> Inl err
           | Inr p2 \<Rightarrow>
               (case filter_batch xs of
                  Inl err \<Rightarrow> Inl err
                | Inr ps \<Rightarrow> Inr ((p1, p2) # ps))))"

text \<open>Second inner loop (lines 134-163) over the sorted matrices.\<close>

fun rank_batch ::
  "accumulators \<Rightarrow> (example \<times> real list \<times> real list) list \<Rightarrow> py_error + accumulators" where
  "rank_batch a [] = Inr a"
| "rank_batch a ((x, p1, p2) # rest) =
     (case rank0 p1 (e2 x) of
        Inl err \<Rightarrow> Inl err
      | Inr rank1 \<Rightarrow>
          (case rank0 p2 (e1 x) of
             Inl err \<Rightarrow> Inl err
           | Inr rank2 \<Rightarrow> rank_batch (record_ranks a rank1 rank2) rest))"

fun run_batches :: "accumulators \<Rightarrow> example list list \<Rightarrow> py_error + accumulators" where
  "run_batches a [] = Inr a"
| "run_batches a (b # bs) =
     (case filter_batch b of
        Inl err \<Rightarrow> Inl err
      | Inr ps \<Rightarrow>
          (case rank_batch a (zip b ps) of
             Inl err \<Rightarrow> Inl err
           | Inr a' \<Rightarrow> run_batches a' bs))"

subsection \<open>Aggregates (lines 167-190)\<close>

text \<open>
  The mean of a list in exact arithmetic; \<^verbatim>\<open>np.mean\<close> returns this value rounded (see
  \<open>mean_f64\<close>), and NaN, here \<open>None\<close>, for the empty list.
\<close>

definition np_mean :: "real list \<Rightarrow> real option" where
  "np_mean xs = (if xs = [] then None else Some (sum_list xs / real (length xs)))"

text \<open>\<^verbatim>\<open>1.0 / np.array(ranks)\<close>\<close>

definition reciprocals :: "nat list \<Rightarrow> real list" where
  "reciprocals rs = map (\<lambda>r. 1 / real r) rs"

text \<open>The lines that are printed (and written to the logger) at the end of a pass.\<close>

record report =
  hits_left_at :: "real option list"
  hits_right_at :: "real option list"
  hits_at :: "real option list"
  mean_rank_left :: "real option"
  mean_rank_right :: "real option"
  mean_rank :: "real option"
  mean_reciprocal_rank_left :: "real option"
  mean_reciprocal_rank_right :: "real option"
  mean_reciprocal_rank :: "real option"

definition summarise :: "accumulators \<Rightarrow> report" where
  "summarise a =
     \<lparr>hits_left_at = map (\<lambda>i. np_mean (hits_left a ! i)) [0..<10],
      hits_right_at = map (\<lambda>i. np_mean (hits_right a ! i)) [0..<10],
      hits_at = map (\<lambda>i. np_mean (hits a ! i)) [0..<10],
      mean_rank_left = np_mean (map real (ranks_left a)),
      mean_rank_right = np_mean (map real (ranks_right a)),
      mean_rank = np_mean (map real (ranks a)),
      mean_reciprocal_rank_left = np_mean (reciprocals (ranks_left a)),
      mean_reciprocal_rank_right = np_mean (reciprocals (ranks_right a)),
      mean_reciprocal_rank = np_mean (reciprocals (ranks a))\<rparr>"

text \<open>
  The whole function: the printed report together with the returned value
  \<^verbatim>\<open>np.mean(1.0 / np.array(ranks))\<close>.
\<close>

definition ranking_and_hits_this :: "example list list \<Rightarrow> py_error + (report \<times> real option)" where
  "ranking_and_hits_this dev_rank_batcher =
     (case run_batches fresh dev_rank_batcher of
        Inl err \<Rightarrow> Inl err
      | Inr a \<Rightarrow> Inr (summarise a, np_mean (reciprocals (ranks a))))"

subsection \<open>Auxiliary notions used in the statements\<close>

text \<open>
  The closed form of a filtered row: the target keeps its score, every other filter
  index holds zero, the remaining entries are untouched. \<open>filter_step_Inr\<close> below
  proves that \<open>filter_step\<close> computes it.
\<close>

definition filtered_row :: "real list \<Rightarrow> nat \<Rightarrow> nat list \<Rightarrow> real list" where
  "filtered_row row t flt =
     map (\<lambda>j. if j = t then row ! t else if j \<in> set flt then 0 else row ! j) [0..<length row]"

text \<open>The two ranks of one example: \<^verbatim>\<open>rank1 + 1\<close> and \<^verbatim>\<open>rank2 + 1\<close>.\<close>

definition left_rank :: "example \<Rightarrow> py_error + nat" where
  "left_rank x = filtered_rank (pred1 x) (e2 x) (e2_multi1 x)"

definition right_rank :: "example \<Rightarrow> py_error + nat" where
  "right_rank x = filtered_rank (pred2 x) (e1 x) (e2_multi2 x)"

text \<open>An example whose targets and filter indices all lie inside its score rows.\<close>

definition in_range :: "example \<Rightarrow> bool" where
  "in_range x \<longleftrightarrow>
     e2 x < length (pred1 x) \<and> e1 x < length (pred2 x) \<and>
     list_all (\<lambda>j. j < length (pred1 x)) (e2_multi1 x) \<and>
     list_all (\<lambda>j. j < length (pred2 x)) (e2_multi2 x)"

text \<open>The same example with each target taken out of its own filter.\<close>

definition without_target :: "example \<Rightarrow> example" where
  "without_target x =
     x\<lparr>e2_multi1 := removeAll (e2 x) (e2_multi1 x),
       e2_multi2 := removeAll (e1 x) (e2_multi2 x)\<rparr>"

text \<open>
  The combined rank list receives \<^verbatim>\<open>rank1 + 1\<close> and then \<^verbatim>\<open>rank2 + 1\<close> for each example:
  it alternates between the two direction lists.
\<close>

fun interleave :: "'a list \<Rightarrow> 'a list \<Rightarrow> 'a list" where
  "interleave (x # xs) (y # ys) = x # y # interleave xs ys"
| "interleave xs ys = []"

text \<open>The indicator list of one hits level for a list of one-based ranks.\<close>

definition hit_flags :: "nat \<Rightarrow> nat list \<Rightarrow> real list" where
  "hit_flags hits_level rs = map (\<lambda>r. hit (r - 1) hits_level) rs"

text \<open>What the loops maintain between examples.\<close>

definition tallied :: "accumulators \<Rightarrow> bool" where
  "tallied a \<longleftrightarrow>
     length (ranks_left a) = length (ranks_right a) \<and>
     ranks a = interleave (ranks_left a) (ranks_right a) \<and>
     hits a = map (\<lambda>l. hit_flags l (ranks a)) [0..<10] \<and>
     hits_left a = map (\<lambda>l. hit_flags l (ranks_left a)) [0..<10] \<and>
     hits_right a = map (\<lambda>l. hit_flags l (ranks_right a)) [0..<10]"

text \<open>
  The scores of the worked scenarios of the specification (five entities), used for
  both directions of one example.
\<close>

definition scenario :: "nat \<Rightarrow> nat list \<Rightarrow> example" where
  "scenario target flt =
     \<lparr>e1 = target, e2 = target, e2_multi1 = flt, e2_multi2 = flt,
      pred1 = [0.1, 0.9, 0.3, 0.05, 0.2], pred2 = [0.1, 0.9, 0.3, 0.05, 0.2]\<rparr>"

subsection \<open>Graph construction from the training batches (lines 239-246 of \<^verbatim>\<open>main\<close>)\<close>

text \<open>
  The inner loops over one row \<open>j\<close> of a training batch: the entries of
  \<^verbatim>\<open>e2_multi1[j]\<close> are read up to the first zero (\<^verbatim>\<open>else: break\<close>); each entry read
  gives one edge \<^verbatim>\<open>(e1, rel, e2)\<close>. Zero is the padding of \<^verbatim>\<open>e2_multi1\<close> here; the
  evaluation reads the same field as its filter.
\<close>

fun preprocess_row :: "nat \<Rightarrow> nat \<Rightarrow> nat list \<Rightarrow> (nat \<times> nat \<times> nat) list" where
  "preprocess_row rel_j e1_j [] = []"
| "preprocess_row rel_j e1_j (c # cs) =
     (if c \<noteq> 0 then (e1_j, rel_j, c) # preprocess_row rel_j e1_j cs else [])"

subsection \<open>Model selection of the knowledge-graph script (lines 22-45)\<close>

datatype kg_model = ConvE | Distmult | Complex_kg | GGNNDistMult | GCNDistMult | GCNComplex

text \<open>
  The entries of \<^verbatim>\<open>cfg\<close> that decide the control flow. \<^verbatim>\<open>cfg["model"]\<close> is a string or
  \<^verbatim>\<open>None\<close>.
\<close>

record kg_cfg =
  model :: "string option"
  preprocess :: bool
  resume :: bool
  epochs :: nat

text \<open>
  \<^verbatim>\<open>KGC.__init__\<close>: the chain of comparisons that selects the model class; the last branch
  is \<^verbatim>\<open>raise Exception("Unknown model type!")\<close>.
\<close>

definition KGC_init :: "kg_cfg \<Rightarrow> py_error + kg_model" where
  "KGC_init cfg =
     (case model cfg of
        None \<Rightarrow> Inr ConvE
      | Some m \<Rightarrow>
          if m = ''conve'' then Inr ConvE
          else if m = ''distmult'' then Inr Distmult
          else if m = ''complex'' then Inr Complex_kg
          else if m = ''ggnn_distmult'' then Inr GGNNDistMult
          else if m = ''gcn_distmult'' then Inr GCNDistMult
          else if m = ''gcn_complex'' then Inr GCNComplex
          else Inl (Exception ''Unknown model type!''))"

text \<open>The strings the chain recognises.\<close>

definition model_types :: "string list" where
  "model_types = [''conve'', ''distmult'', ''complex'', ''ggnn_distmult'', ''gcn_distmult'', ''gcn_complex'']"

subsection \<open>Control flow of \<^verbatim>\<open>main\<close> of the knowledge-graph script (lines 193-354)\<close>

text \<open>
  The calls of \<^verbatim>\<open>main\<close> to its collaborators, in the order in which they happen, as a
  trace. The values \<^verbatim>\<open>ranking_and_hits_this\<close> returns on the validation data depend on
  the trained model; \<open>dev_mrr epoch\<close> stands for the value returned in that epoch
  (\<open>None\<close> for NaN, for which \<^verbatim>\<open>dev_mrr > best_mrr\<close> is false).
\<close>

datatype event =
    Load_dataset
  | Preprocess_graph
  | Load_graph
  | Construct_model kg_model
  | Load_parameters
  | Init_parameters
  | Train_epoch nat
  | Evaluation string
  | Save_model

fun is_train_or_eval :: "event \<Rightarrow> bool" where
  "is_train_or_eval (Train_epoch n) = True"
| "is_train_or_eval (Evaluation name) = True"
| "is_train_or_eval ev = False"

text \<open>The loop \<^verbatim>\<open>for epoch in range(cfg["epochs"])\<close> (lines 307-354).\<close>

fun run_epochs :: "(nat \<Rightarrow> real option) \<Rightarrow> real \<Rightarrow> nat list \<Rightarrow> event list" where
  "run_epochs dev_mrr best_mrr [] = []"
| "run_epochs dev_mrr best_mrr (epoch # rest) =
     (if epoch mod 2 = 0 \<and> epoch > 0 then
        (let improved = (case dev_mrr epoch of None \<Rightarrow> False | Some v \<Rightarrow> v > best_mrr) in
         [Train_epoch epoch, Evaluation ''dev_evaluation''] @
         (if improved then [Save_model] else []) @
         [Evaluation ''test_evaluation''] @
         run_epochs dev_mrr (if improved then the (dev_mrr epoch) else best_mrr) rest)
      else Train_epoch epoch # run_epochs dev_mrr best_mrr rest)"

text \<open>
  \<^verbatim>\<open>main\<close>: data sets and graph first, then \<^verbatim>\<open>KGC(cfg, num_entities, num_relations)\<close>, then
  the evaluation of a resumed model or the initialisation, then the epochs.
\<close>

definition kg_main :: "kg_cfg \<Rightarrow> (nat \<Rightarrow> real option) \<Rightarrow> event list \<times> (py_error + unit)" where
  "kg_main cfg dev_mrr =
     (let setup = Load_dataset # (if preprocess cfg then [Preprocess_graph] else [Load_graph]) in
      case KGC_init cfg of
        Inl err \<Rightarrow> (setup, Inl err)
      | Inr m \<Rightarrow>
          (setup @ [Construct_model m] @
           (if resume cfg
            then [Load_parameters, Evaluation ''test_evaluation'', Evaluation ''dev_evaluation'']
            else [Init_parameters]) @
           run_epochs dev_mrr 0 [0..<epochs cfg],
           Inr ()))"

subsection \<open>The text-classification script\<close>

datatype graph_construction =
    DependencyBasedGraphConstruction
  | ConstituencyBasedGraphConstruction
  | NodeEmbeddingBasedGraphConstruction
  | NodeEmbeddingBasedRefinedGraphConstruction

text \<open>
  \<^verbatim>\<open>TextClassifier.__init__\<close> (lines 37-85): the graph construction module is chosen by
  \<^verbatim>\<open>config.graph_type\<close>; the last branch is
  \<^verbatim>\<open>raise RuntimeError('Unknown graph_type: {}'.format(config.graph_type))\<close>.
\<close>

definition TextClassifier_init :: "string \<Rightarrow> py_error + graph_construction" where
  "TextClassifier_init graph_type =
     (if graph_type = ''dependency'' then Inr DependencyBasedGraphConstruction
      else if graph_type = ''constituency'' then Inr ConstituencyBasedGraphConstruction
      else if graph_type = ''node_emb'' then Inr NodeEmbeddingBasedGraphConstruction
      else if graph_type = ''node_emb_refined'' then Inr NodeEmbeddingBasedRefinedGraphConstruction
      else Inl (RuntimeError (''Unknown graph_type: '' @ graph_type)))"

text \<open>The strings the chain recognises.\<close>

definition graph_types :: "string list" where
  "graph_types = [''dependency'', ''constituency'', ''node_emb'', ''node_emb_refined'']"

text \<open>
  \<^verbatim>\<open>ModelHandler._build_dataloader\<close> (lines 144-158) runs the same chain on
  \<^verbatim>\<open>self.config.graph_type\<close>. Its last branch formats \<^verbatim>\<open>config.graph_type\<close>, and no name
  \<^verbatim>\<open>config\<close> is bound in that method or in the module: evaluating the argument of
  \<^verbatim>\<open>RuntimeError\<close> raises \<^verbatim>\<open>NameError\<close> for the name \<^verbatim>\<open>config\<close>.
\<close>

definition build_dataloader :: "string \<Rightarrow> py_error + (graph_construction \<times> string)" where
  "build_dataloader graph_type =
     (if graph_type = ''dependency'' then Inr (DependencyBasedGraphConstruction, ''static'')
      else if graph_type = ''constituency'' then Inr (ConstituencyBasedGraphConstruction, ''static'')
      else if graph_type = ''node_emb'' then Inr (NodeEmbeddingBasedGraphConstruction, ''dynamic'')
      else if graph_type = ''node_emb_refined''
        then Inr (NodeEmbeddingBasedRefinedGraphConstruction, ''dynamic'')
      else Inl (NameError ''config''))"

text \<open>The steps of \<^verbatim>\<open>ModelHandler.__init__\<close> and of \<^verbatim>\<open>main\<close> (lines 136-142, 251-265).\<close>

datatype tc_event =
    Build_dataloader
  | Build_model
  | Build_optimizer
  | Build_evaluation
  | Train
  | Load_checkpoint
  | Test
  | Remove_checkpoint

fun is_train_or_test :: "tc_event \<Rightarrow> bool" where
  "is_train_or_test Train = True"
| "is_train_or_test Test = True"
| "is_train_or_test ev = False"

definition ModelHandler_init :: "string \<Rightarrow> tc_event list \<times> (py_error + unit)" where
  "ModelHandler_init graph_type =
     (case build_dataloader graph_type of
        Inl err \<Rightarrow> ([], Inl err)
      | Inr loaders \<Rightarrow>
          (case TextClassifier_init graph_type of
             Inl err \<Rightarrow> ([Build_dataloader], Inl err)
           | Inr m \<Rightarrow> ([Build_dataloader, Build_model, Build_optimizer, Build_evaluation], Inr ())))"

definition tc_main :: "string \<Rightarrow> tc_event list \<times> (py_error + unit)" where
  "tc_main graph_type =
     (case ModelHandler_init graph_type of
        (built, Inl err) \<Rightarrow> (built, Inl err)
      | (built, Inr runner) \<Rightarrow> (built @ [Train, Load_checkpoint, Test, Remove_checkpoint], Inr ()))"

subsection \<open>The aggregates in float64\<close>

text \<open>
  Rounding of a real number to the nearest double (53 significant bits, ties to the even
  significand). \<open>exponent\<close> is the binary exponent of a positive number, not below
  \<open>-1022\<close>, where the subnormal doubles begin; numbers from \<open>2^1024\<close> on overflow and
  are outside the model.
\<close>

fun exponent_up :: "nat \<Rightarrow> real \<Rightarrow> int" where
  "exponent_up 0 x = 0"
| "exponent_up (Suc n) x = (if x < 2 then 0 else exponent_up n (x / 2) + 1)"

fun exponent_down :: "nat \<Rightarrow> real \<Rightarrow> int" where
  "exponent_down 0 x = 0"
| "exponent_down (Suc n) x = (if 1 \<le> x then 0 else exponent_down n (2 * x) - 1)"

definition exponent :: "real \<Rightarrow> int" where
  "exponent x = (if 1 \<le> x then exponent_up 1023 x else exponent_down 1022 x)"

definition round_half_even :: "real \<Rightarrow> int" where
  "round_half_even q =
     (let f = \<lfloor>q\<rfloor>; d = q - of_int f
      in if d < 1 / 2 then f else if 1 / 2 < d then f + 1 else if even f then f else f + 1)"

definition f64 :: "real \<Rightarrow> real" where
  "f64 x =
     (if x = 0 then 0
      else (let ulp = 2 powi (exponent \<bar>x\<bar> - 52)
            in of_int (round_half_even (x / ulp)) * ulp))"

text \<open>
  \<^verbatim>\<open>np.mean\<close> on doubles: the elements are added in float64 and the sum is divided by the
  count in float64. The additions are taken in list order here; numpy adds in sequence
  for short arrays and in blocks for long ones, which gives the same sum whenever no
  addition rounds, as for ranks and hit indicators (whole numbers below \<open>2^53\<close>) and for
  the lists of the instance below.
\<close>

definition f64_sum :: "real list \<Rightarrow> real" where
  "f64_sum xs = foldl (\<lambda>s x. f64 (s + x)) 0 xs"

definition mean_f64 :: "real list \<Rightarrow> real option" where
  "mean_f64 xs = (if xs = [] then None else Some (f64 (f64_sum xs / real (length xs))))"

text \<open>\<^verbatim>\<open>1.0 / np.array(ranks)\<close> in float64.\<close>

definition reciprocals_f64 :: "nat list \<Rightarrow> real list" where
  "reciprocals_f64 rs = map (\<lambda>r. f64 (1 / real r)) rs"

text \<open>The printed lines with every mean taken in float64.\<close>

definition summarise_f64 :: "accumulators \<Rightarrow> report" where
  "summarise_f64 a =
     \<lparr>hits_left_at = map (\<lambda>i. mean_f64 (hits_left a ! i)) [0..<10],
      hits_right_at = map (\<lambda>i. mean_f64 (hits_right a ! i)) [0..<10],
      hits_at = map (\<lambda>i. mean_f64 (hits a ! i)) [0..<10],
      mean_rank_left = mean_f64 (map real (ranks_left a)),
      mean_rank_right = mean_f64 (map real (ranks_right a)),
      mean_rank = mean_f64 (map real (ranks a)),
      mean_reciprocal_rank_left = mean_f64 (reciprocals_f64 (ranks_left a)),
      mean_reciprocal_rank_right = mean_f64 (reciprocals_f64 (ranks_right a)),
      mean_reciprocal_rank = mean_f64 (reciprocals_f64 (ranks a))\<rparr>"

text \<open>
  A batch of three examples over two entities, each filter holding the target only:
  the first direction ranks its target first in all three examples, the second
  direction in the first two.
\<close>

definition two_entities :: "nat \<Rightarrow> nat \<Rightarrow> example" where
  "two_entities subject object =
     \<lparr>e1 = subject, e2 = object, e2_multi1 = [object], e2_multi2 = [subject],
      pred1 = [0.9, 0.1], pred2 = [0.9, 0.1]\<rparr>"

definition uneven_batch :: "example list" where
  "uneven_batch = [two_entities 0 0, two_entities 0 0, two_entities 1 0]"

section \<open>Properties\<close>

subsection \<open>The filter step\<close>

lemma length_fold_zero: "length (fold (\<lambda>j r. r[j := 0]) flt row) = length row"
  by (induction flt arbitrary: row) simp_all

lemma nth_fold_zero:
  "j < length row \<Longrightarrow>
     fold (\<lambda>j r. r[j := (0::real)]) flt row ! j = (if j \<in> set flt then 0 else row ! j)"
proof (induction flt arbitrary: row)
  case Nil
  then show ?case by simp
next
  case (Cons k flt)
  have "fold (\<lambda>j r. r[j := 0]) (k # flt) row ! j = fold (\<lambda>j r. r[j := 0]) flt (row[k := 0]) ! j"
    by simp
  also have "\<dots> = (if j \<in> set flt then 0 else row[k := 0] ! j)"
    using Cons.IH [of "row[k := 0]"] Cons.prems by simp
  also have "\<dots> = (if j \<in> set (k # flt) then 0 else row ! j)"
    using Cons.prems by (auto simp: nth_list_update)
  finally show ?case .
qed

lemma zero_all_known_Inr:
  "zero_all_known row flt = Inr z \<longleftrightarrow>
     (\<forall>j\<in>set flt. j < length row) \<and> z = fold (\<lambda>j r. r[j := 0]) flt row"
  by (auto simp: zero_all_known_def list_all_iff)

lemma length_filtered_row [simp]: "length (filtered_row row t flt) = length row"
  by (simp add: filtered_row_def)

lemma filter_step_Inr:
  "filter_step row t flt = Inr p \<longleftrightarrow>
     t < length row \<and> (\<forall>j\<in>set flt. j < length row) \<and> p = filtered_row row t flt"
proof -
  have eq: "(fold (\<lambda>j r. r[j := 0]) flt row)[t := row ! t] = filtered_row row t flt"
    if "t < length row"
    by (rule nth_equalityI)
       (simp_all add: filtered_row_def length_fold_zero nth_fold_zero nth_list_update)
  show ?thesis
    by (auto simp: filter_step_def zero_all_known_def list_all_iff eq split: sum.splits)
qed

lemma filter_step_Inl:
  "filter_step row t flt = Inl err \<longleftrightarrow>
     (length row \<le> t \<or> (\<exists>j\<in>set flt. length row \<le> j)) \<and> err = IndexError"
  by (auto simp: filter_step_def zero_all_known_def list_all_iff not_less split: sum.splits)

lemma filter_step_total:
  "t < length row \<Longrightarrow> \<forall>j\<in>set flt. j < length row \<Longrightarrow>
     filter_step row t flt = Inr (filtered_row row t flt)"
  by (simp add: filter_step_Inr)

lemma filtered_row_removeAll: "filtered_row row t (removeAll t flt) = filtered_row row t flt"
  by (auto simp: filtered_row_def)

lemma filter_step_removeAll: "filter_step row t (removeAll t flt) = filter_step row t flt"
proof (cases "t < length row")
  case False
  then show ?thesis by (simp add: filter_step_def)
next
  case True
  then have same: "(\<forall>j\<in>set (removeAll t flt). j < length row) = (\<forall>j\<in>set flt. j < length row)"
    by auto
  show ?thesis
  proof (cases "\<forall>j\<in>set flt. j < length row")
    case True
    with \<open>t < length row\<close> same show ?thesis
      by (simp add: filter_step_total filtered_row_removeAll)
  next
    case False
    with same have "filter_step row t flt = Inl IndexError"
      and "filter_step row t (removeAll t flt) = Inl IndexError"
      unfolding filter_step_Inl by (auto simp: not_less)
    then show ?thesis by simp
  qed
qed

lemma filtered_row_idem:
  "t < length row \<Longrightarrow> filtered_row (filtered_row row t flt) t flt = filtered_row row t flt"
  by (rule nth_equalityI) (auto simp: filtered_row_def)

subsection \<open>Sorting and locating the target\<close>

lemma set_argsort_desc [simp]: "set (argsort_desc row) = {0..<length row}"
  by (simp add: argsort_desc_def)

lemma length_argsort_desc [simp]: "length (argsort_desc row) = length row"
  by (simp add: argsort_desc_def)

lemma first_index_Some:
  "t \<in> set xs \<Longrightarrow> \<exists>k. first_index xs t = Some k \<and> k < length xs \<and> xs ! k = t"
  by (induction xs) auto

lemma rank0_total: "t < length row \<Longrightarrow> \<exists>k. rank0 row t = Inr k \<and> k < length row"
  using first_index_Some [of t "argsort_desc row"]
  by (auto simp: rank0_def np_where_first_def)

lemma first_index_SomeD:
  "first_index xs t = Some k \<Longrightarrow> k < length xs \<and> xs ! k = t"
  by (induction xs arbitrary: k) (auto split: if_splits)

lemma sorted_argsort_desc: "sorted (map (\<lambda>j. - (row ! j)) (argsort_desc row))"
  by (simp add: argsort_desc_def)

lemma distinct_argsort_desc: "distinct (argsort_desc row)"
  by (simp add: argsort_desc_def)

lemma argsort_desc_nth_less: "k < length row \<Longrightarrow> argsort_desc row ! k < length row"
  using nth_mem [of k "argsort_desc row"] by simp

text \<open>
  The position of the target is fixed by the scores up to ties: at least the number of
  entities that score strictly higher, and less than the number of entities that score
  at least as high. This holds for every descending order of the row, stable or not.
\<close>

lemma rank0_between:
  assumes "rank0 row t = Inr k"
  shows "card {j. j < length row \<and> row ! t < row ! j} \<le> k \<and>
         k < card {j. j < length row \<and> row ! t \<le> row ! j}"
proof -
  let ?ys = "argsort_desc row"
  let ?f = "\<lambda>j. - (row ! j)"
  from assms have "first_index ?ys t = Some k"
    by (auto simp: rank0_def np_where_first_def split: option.splits)
  then have k: "k < length ?ys" and t: "?ys ! k = t"
    by (auto dest: first_index_SomeD)
  have srt: "sorted (map ?f ?ys)" by (rule sorted_argsort_desc)
  have mono: "?f (?ys ! i) \<le> ?f (?ys ! j)" if "i \<le> j" "j < length ?ys" for i j
    using sorted_nth_mono [OF srt, of i j] that by simp
  have "{j. j < length row \<and> row ! t < row ! j} \<subseteq> set (take k ?ys)"
  proof
    fix j assume "j \<in> {j. j < length row \<and> row ! t < row ! j}"
    then have j: "j < length row" "row ! t < row ! j" by auto
    then have "j \<in> set ?ys" by simp
    then obtain i where i: "i < length ?ys" "?ys ! i = j"
      by (auto simp del: set_argsort_desc simp: in_set_conv_nth)
    have "i < k"
    proof (rule ccontr)
      assume "\<not> i < k"
      then have "?f (?ys ! k) \<le> ?f (?ys ! i)" using mono [of k i] i(1) by simp
      with t i(2) j(2) show False by simp
    qed
    with i k show "j \<in> set (take k ?ys)"
      by (auto simp: in_set_conv_nth)
  qed
  then have "card {j. j < length row \<and> row ! t < row ! j} \<le> card (set (take k ?ys))"
    by (rule card_mono [rotated]) simp
  also have "\<dots> \<le> k"
    using card_length [of "take k ?ys"] by simp
  finally have lower: "card {j. j < length row \<and> row ! t < row ! j} \<le> k" .
  have "set (take (Suc k) ?ys) \<subseteq> {j. j < length row \<and> row ! t \<le> row ! j}"
  proof
    fix j assume "j \<in> set (take (Suc k) ?ys)"
    then obtain i where i: "i < Suc k" "i < length ?ys" "?ys ! i = j"
      by (auto simp: in_set_conv_nth)
    then have "?f (?ys ! i) \<le> ?f (?ys ! k)" using mono [of i k] k by simp
    moreover have "j < length row" using i argsort_desc_nth_less [of i row] by simp
    ultimately show "j \<in> {j. j < length row \<and> row ! t \<le> row ! j}"
      using t i(3) by simp
  qed
  then have "card (set (take (Suc k) ?ys)) \<le> card {j. j < length row \<and> row ! t \<le> row ! j}"
    by (rule card_mono [rotated]) simp
  moreover have "card (set (take (Suc k) ?ys)) = Suc k"
    using distinct_card [of "take (Suc k) ?ys"] distinct_argsort_desc [of row] k
    by (simp add: min_def)
  ultimately show ?thesis using lower by simp
qed

lemma rank0_no_ties:
  assumes "rank0 row t = Inr k" and "\<forall>j<length row. j \<noteq> t \<longrightarrow> row ! j \<noteq> row ! t"
  shows "k = card {j. j < length row \<and> row ! t < row ! j}"
proof -
  from assms(1) have "t < length row"
    using first_index_SomeD [of "argsort_desc row" t k] argsort_desc_nth_less [of k row]
    by (auto simp: rank0_def np_where_first_def split: option.splits)
  have "{j. j < length row \<and> row ! t \<le> row ! j} = insert t {j. j < length row \<and> row ! t < row ! j}"
    using assms(2) \<open>t < length row\<close> by (auto simp: less_le)
  then have "card {j. j < length row \<and> row ! t \<le> row ! j} = Suc (card {j. j < length row \<and> row ! t < row ! j})"
    by simp
  with rank0_between [OF assms(1)] show ?thesis by simp
qed

lemma filtered_rank_total:
  assumes "t < length row" and "\<forall>j\<in>set flt. j < length row"
  shows "\<exists>r. filtered_rank row t flt = Inr r \<and> 1 \<le> r \<and> r \<le> length row"
proof -
  from rank0_total [of t "filtered_row row t flt"] assms(1)
  obtain k where "rank0 (filtered_row row t flt) t = Inr k" and "k < length row"
    by auto
  with assms show ?thesis
    by (simp add: filtered_rank_def filter_step_total)
qed

subsection \<open>Batches\<close>

lemma in_range_iff:
  "in_range x \<longleftrightarrow>
     (\<exists>p1 p2. filter_step (pred1 x) (e2 x) (e2_multi1 x) = Inr p1 \<and>
              filter_step (pred2 x) (e1 x) (e2_multi2 x) = Inr p2)"
  by (auto simp: in_range_def filter_step_Inr list_all_iff)

lemma filter_batch_total: "list_all in_range b \<Longrightarrow> \<exists>ps. filter_batch b = Inr ps"
  by (induction b) (auto simp: in_range_iff)

lemma filter_batch_in_range: "filter_batch b = Inr ps \<Longrightarrow> list_all in_range b"
  by (induction b arbitrary: ps) (auto simp: in_range_iff split: sum.splits)

lemma interleave_snoc:
  "length ls = length rs \<Longrightarrow> interleave (ls @ [l]) (rs @ [r]) = interleave ls rs @ [l, r]"
  by (induction ls rs rule: list_induct2) simp_all

lemma length_interleave: "length ls = length rs \<Longrightarrow> length (interleave ls rs) = 2 * length ls"
  by (induction ls rs rule: list_induct2) simp_all

lemma sum_list_interleave:
  fixes f :: "'a \<Rightarrow> real"
  shows "length ls = length rs \<Longrightarrow>
    sum_list (map f (interleave ls rs)) = sum_list (map f ls) + sum_list (map f rs)"
  by (induction ls rs rule: list_induct2) simp_all

lemma tallied_fresh: "tallied fresh"
  by (simp add: tallied_def fresh_def hit_flags_def map_replicate_const)

lemma tallied_record_ranks:
  assumes "tallied a"
  shows "tallied (record_ranks a k1 k2)"
proof -
  have nth: "hits a ! l = hit_flags l (ranks a)"
    "hits_left a ! l = hit_flags l (ranks_left a)"
    "hits_right a ! l = hit_flags l (ranks_right a)" if "l < 10" for l
    using assms that by (simp_all add: tallied_def)
  have "map (\<lambda>l. hits a ! l @ [hit k1 l, hit k2 l]) [0..<10] =
        map (\<lambda>l. hit_flags l (ranks a @ [k1 + 1, k2 + 1])) [0..<10]"
    by (rule map_cong) (simp_all add: nth hit_flags_def)
  moreover have "map (\<lambda>l. hits_left a ! l @ [hit k1 l]) [0..<10] =
        map (\<lambda>l. hit_flags l (ranks_left a @ [k1 + 1])) [0..<10]"
    by (rule map_cong) (simp_all add: nth hit_flags_def)
  moreover have "map (\<lambda>l. hits_right a ! l @ [hit k2 l]) [0..<10] =
        map (\<lambda>l. hit_flags l (ranks_right a @ [k2 + 1])) [0..<10]"
    by (rule map_cong) (simp_all add: nth hit_flags_def)
  ultimately show ?thesis
    using assms by (simp add: tallied_def record_ranks_def interleave_snoc)
qed

lemma rank_batch_zip:
  assumes "filter_batch b = Inr ps" and "tallied a"
  shows "\<exists>a' ls rs. rank_batch a (zip b ps) = Inr a' \<and> tallied a' \<and>
           map left_rank b = map Inr ls \<and> map right_rank b = map Inr rs \<and>
           ranks_left a' = ranks_left a @ ls \<and> ranks_right a' = ranks_right a @ rs"
  using assms
proof (induction b arbitrary: ps a)
  case Nil
  then show ?case by simp
next
  case (Cons x xs)
  from Cons.prems(1) obtain p1 p2 ps' where
    p1: "filter_step (pred1 x) (e2 x) (e2_multi1 x) = Inr p1" and
    p2: "filter_step (pred2 x) (e1 x) (e2_multi2 x) = Inr p2" and
    ps': "filter_batch xs = Inr ps'" and ps: "ps = (p1, p2) # ps'"
    by (auto split: sum.splits)
  from p1 have "e2 x < length p1" by (auto simp: filter_step_Inr)
  then obtain k1 where k1: "rank0 p1 (e2 x) = Inr k1" using rank0_total by blast
  from p2 have "e1 x < length p2" by (auto simp: filter_step_Inr)
  then obtain k2 where k2: "rank0 p2 (e1 x) = Inr k2" using rank0_total by blast
  have l: "left_rank x = Inr (k1 + 1)" and r: "right_rank x = Inr (k2 + 1)"
    using p1 p2 k1 k2 by (simp_all add: left_rank_def right_rank_def filtered_rank_def)
  from Cons.IH [OF ps' tallied_record_ranks [OF Cons.prems(2)], of k1 k2]
  obtain a' ls rs where
    "rank_batch (record_ranks a k1 k2) (zip xs ps') = Inr a'" "tallied a'"
    "map left_rank xs = map Inr ls" "map right_rank xs = map Inr rs"
    "ranks_left a' = ranks_left (record_ranks a k1 k2) @ ls"
    "ranks_right a' = ranks_right (record_ranks a k1 k2) @ rs"
    by blast
  then have "rank_batch a (zip (x # xs) ps) = Inr a' \<and> tallied a' \<and>
      map left_rank (x # xs) = map Inr ((k1 + 1) # ls) \<and>
      map right_rank (x # xs) = map Inr ((k2 + 1) # rs) \<and>
      ranks_left a' = ranks_left a @ (k1 + 1) # ls \<and>
      ranks_right a' = ranks_right a @ (k2 + 1) # rs"
    using k1 k2 l r ps by (simp add: record_ranks_def)
  then show ?case by blast
qed

lemma run_batches_ranks:
  assumes "list_all (list_all in_range) bs" and "tallied a"
  shows "\<exists>a' ls rs. run_batches a bs = Inr a' \<and> tallied a' \<and>
           map left_rank (concat bs) = map Inr ls \<and> map right_rank (concat bs) = map Inr rs \<and>
           ranks_left a' = ranks_left a @ ls \<and> ranks_right a' = ranks_right a @ rs"
  using assms
proof (induction bs arbitrary: a)
  case Nil
  then show ?case by simp
next
  case (Cons b bs)
  from Cons.prems(1) obtain ps where ps: "filter_batch b = Inr ps"
    using filter_batch_total by auto
  from rank_batch_zip [OF ps Cons.prems(2)] obtain a1 ls1 rs1 where
    a1: "rank_batch a (zip b ps) = Inr a1" "tallied a1"
    "map left_rank b = map Inr ls1" "map right_rank b = map Inr rs1"
    "ranks_left a1 = ranks_left a @ ls1" "ranks_right a1 = ranks_right a @ rs1"
    by blast
  from Cons.prems(1) have "list_all (list_all in_range) bs" by simp
  from Cons.IH [OF this a1(2)] obtain a' ls rs where
    a': "run_batches a1 bs = Inr a'" "tallied a'"
    "map left_rank (concat bs) = map Inr ls" "map right_rank (concat bs) = map Inr rs"
    "ranks_left a' = ranks_left a1 @ ls" "ranks_right a' = ranks_right a1 @ rs"
    by blast
  have "run_batches a (b # bs) = Inr a' \<and> tallied a' \<and>
      map left_rank (concat (b # bs)) = map Inr (ls1 @ ls) \<and>
      map right_rank (concat (b # bs)) = map Inr (rs1 @ rs) \<and>
      ranks_left a' = ranks_left a @ (ls1 @ ls) \<and>
      ranks_right a' = ranks_right a @ (rs1 @ rs)"
    using ps a1 a' by simp
  then show ?case by blast
qed

lemma run_batches_in_range:
  "run_batches a bs = Inr a' \<Longrightarrow> list_all (list_all in_range) bs"
  by (induction bs arbitrary: a) (auto split: sum.splits dest: filter_batch_in_range)

text \<open>A pass over well-formed batches.\<close>

lemma pass_accumulators:
  assumes "list_all (list_all in_range) bs"
  shows "\<exists>a ls rs. run_batches fresh bs = Inr a \<and> tallied a \<and>
           map left_rank (concat bs) = map Inr ls \<and> map right_rank (concat bs) = map Inr rs \<and>
           ranks_left a = ls \<and> ranks_right a = rs \<and> ranks a = interleave ls rs \<and>
           length ls = length (concat bs) \<and> length rs = length (concat bs)"
proof -
  from run_batches_ranks [OF assms tallied_fresh] obtain a ls rs where
    a: "run_batches fresh bs = Inr a" "tallied a"
    "map left_rank (concat bs) = map Inr ls" "map right_rank (concat bs) = map Inr rs"
    "ranks_left a = ranks_left fresh @ ls" "ranks_right a = ranks_right fresh @ rs"
    by blast
  have "length ls = length (concat bs)" "length rs = length (concat bs)"
    using a(3,4) by (metis length_map)+
  with a show ?thesis
    by (auto simp: fresh_def tallied_def)
qed

subsection \<open>Means\<close>

lemma np_mean_Some: "xs \<noteq> [] \<Longrightarrow> np_mean xs = Some (sum_list xs / real (length xs))"
  by (simp add: np_mean_def)

lemma hit_mono: "i \<le> j \<Longrightarrow> hit k i \<le> hit k j"
  by (simp add: hit_def)

lemma sum_hit_flags_mono: "i \<le> j \<Longrightarrow> sum_list (hit_flags i rs) \<le> sum_list (hit_flags j rs)"
  unfolding hit_flags_def by (rule sum_list_mono) (simp add: hit_mono)

lemma np_mean_hit_flags_mono:
  assumes "i \<le> j" and "rs \<noteq> []"
  shows "\<exists>a b. np_mean (hit_flags i rs) = Some a \<and> np_mean (hit_flags j rs) = Some b \<and> a \<le> b"
proof -
  have "sum_list (hit_flags i rs) / real (length rs) \<le> sum_list (hit_flags j rs) / real (length rs)"
    using sum_hit_flags_mono [OF assms(1)] by (simp add: divide_right_mono)
  then show ?thesis
    using assms(2) by (simp add: np_mean_def hit_flags_def)
qed

lemma reciprocal_bounds:
  fixes xs :: "real list"
  assumes "\<forall>x\<in>set xs. 0 < x \<and> x \<le> 1"
  shows "sum_list xs \<le> real (length xs) \<and>
         (sum_list xs = real (length xs) \<longleftrightarrow> (\<forall>x\<in>set xs. x = 1)) \<and>
         (xs \<noteq> [] \<longrightarrow> 0 < sum_list xs)"
  using assms
proof (induction xs)
  case Nil
  then show ?case by simp
next
  case (Cons x xs)
  then have x: "0 < x" "x \<le> 1" and ih: "sum_list xs \<le> real (length xs)"
    "sum_list xs = real (length xs) \<longleftrightarrow> (\<forall>x\<in>set xs. x = 1)" and nn: "0 \<le> sum_list xs"
    by (auto intro: sum_list_nonneg less_imp_le)
  have "sum_list (x # xs) = real (length (x # xs)) \<longleftrightarrow> x = 1 \<and> sum_list xs = real (length xs)"
    using x ih(1) by auto
  then show ?case using x ih nn by auto
qed

lemma mrr_bounds:
  assumes "rs \<noteq> []" and "\<forall>r\<in>set rs. 1 \<le> r"
  shows "\<exists>m. np_mean (reciprocals rs) = Some m \<and> 0 < m \<and> m \<le> 1 \<and>
              (m = 1 \<longleftrightarrow> (\<forall>r\<in>set rs. r = 1))"
proof -
  let ?xs = "reciprocals rs"
  have each: "\<forall>x\<in>set ?xs. 0 < x \<and> x \<le> 1"
    using assms(2) by (auto simp: reciprocals_def)
  have ones: "(\<forall>x\<in>set ?xs. x = 1) \<longleftrightarrow> (\<forall>r\<in>set rs. r = 1)"
    by (auto simp: reciprocals_def)
  have len: "length ?xs = length rs" and ne: "?xs \<noteq> []"
    using assms(1) by (simp_all add: reciprocals_def)
  from reciprocal_bounds [OF each] ne
  have le: "sum_list ?xs \<le> real (length ?xs)"
    and eq: "sum_list ?xs = real (length ?xs) \<longleftrightarrow> (\<forall>x\<in>set ?xs. x = 1)"
    and pos: "0 < sum_list ?xs"
    by auto
  have n: "0 < real (length ?xs)" using ne by simp
  have "0 < sum_list ?xs / real (length ?xs)" using pos n by simp
  moreover have "sum_list ?xs / real (length ?xs) \<le> 1" using le n by simp
  moreover have "sum_list ?xs / real (length ?xs) = 1 \<longleftrightarrow> sum_list ?xs = real (length ?xs)"
    using n by (simp add: divide_eq_eq)
  then have "sum_list ?xs / real (length ?xs) = 1 \<longleftrightarrow> (\<forall>r\<in>set rs. r = 1)"
    using eq ones by blast
  ultimately show ?thesis
    using ne by (simp add: np_mean_def)
qed

subsection \<open>Targets inside their own filters\<close>

lemma without_target_simps [simp]:
  "e1 (without_target x) = e1 x" "e2 (without_target x) = e2 x"
  "pred1 (without_target x) = pred1 x" "pred2 (without_target x) = pred2 x"
  "e2_multi1 (without_target x) = removeAll (e2 x) (e2_multi1 x)"
  "e2_multi2 (without_target x) = removeAll (e1 x) (e2_multi2 x)"
  by (simp_all add: without_target_def)

lemma filter_batch_without_target: "filter_batch (map without_target b) = filter_batch b"
  by (induction b) (simp_all add: filter_step_removeAll cong: sum.case_cong)

lemma rank_batch_without_target:
  "rank_batch a (zip (map without_target b) ps) = rank_batch a (zip b ps)"
proof (induction b arbitrary: a ps)
  case Nil
  then show ?case by simp
next
  case (Cons x xs)
  show ?case
  proof (cases ps)
    case Nil
    then show ?thesis by simp
  next
    case (Cons p ps')
    obtain p1 p2 where "p = (p1, p2)" by (cases p)
    with Cons Cons.IH show ?thesis
      by (simp split: sum.splits)
  qed
qed

lemma run_batches_without_target:
  "run_batches a (map (map without_target) bs) = run_batches a bs"
  by (induction bs arbitrary: a)
     (simp_all add: filter_batch_without_target rank_batch_without_target cong: sum.case_cong)

subsection \<open>Ranks of a pass are positive\<close>

lemma filtered_rank_pos: "filtered_rank row t flt = Inr r \<Longrightarrow> 1 \<le> r"
  by (auto simp: filtered_rank_def split: sum.splits)

lemma map_Inr_pos:
  assumes "map f xs = map Inr ls" and "\<And>x r. f x = Inr r \<Longrightarrow> 1 \<le> (r::nat)"
  shows "\<forall>l\<in>set ls. 1 \<le> l"
  using assms(1)
proof (induction xs arbitrary: ls)
  case Nil
  then show ?case by simp
next
  case (Cons x xs)
  then obtain l ls' where "ls = l # ls'" "f x = Inr l" "map f xs = map Inr ls'"
    by (cases ls) auto
  with Cons.IH assms(2) show ?case by auto
qed

lemma set_interleave: "set (interleave ls rs) \<subseteq> set ls \<union> set rs"
  by (induction ls rs rule: interleave.induct) auto

lemma pass_mrr_in_unit_interval:
  assumes "list_all (list_all in_range) bs" and "concat bs \<noteq> []"
  shows "\<exists>rep m. ranking_and_hits_this bs = Inr (rep, Some m) \<and> 0 < m \<and> m \<le> 1"
proof -
  from pass_accumulators [OF assms(1)] obtain a ls rs where
    a: "run_batches fresh bs = Inr a"
    "map left_rank (concat bs) = map Inr ls" "map right_rank (concat bs) = map Inr rs"
    "ranks a = interleave ls rs"
    "length ls = length (concat bs)" "length rs = length (concat bs)"
    by blast
  have "length (ranks a) = 2 * length (concat bs)"
    using a(4,5,6) by (simp add: length_interleave)
  with assms(2) have ne: "ranks a \<noteq> []" by auto
  have "\<forall>l\<in>set ls. 1 \<le> l"
    using a(2) by (rule map_Inr_pos) (auto simp: left_rank_def dest: filtered_rank_pos)
  moreover have "\<forall>r\<in>set rs. 1 \<le> r"
    using a(3) by (rule map_Inr_pos) (auto simp: right_rank_def dest: filtered_rank_pos)
  ultimately have ge: "\<forall>r\<in>set (ranks a). 1 \<le> r"
    using set_interleave [of ls rs] a(4) by auto
  from mrr_bounds [OF ne ge] obtain m where
    "np_mean (reciprocals (ranks a)) = Some m" "0 < m" "m \<le> 1" by blast
  then show ?thesis using a(1) by (simp add: ranking_and_hits_this_def)
qed

subsection \<open>Zero as padding\<close>

lemma preprocess_row_padding:
  "0 \<notin> set ids \<Longrightarrow>
     preprocess_row rel_j e1_j (ids @ replicate n 0) = map (\<lambda>c. (e1_j, rel_j, c)) ids"
proof (induction ids)
  case Nil
  then show ?case by (cases n) simp_all
next
  case (Cons c cs)
  then show ?case by simp
qed

subsection \<open>Model and graph selection\<close>

lemma KGC_init_unknown:
  "model cfg = Some m \<Longrightarrow> m \<notin> set model_types \<Longrightarrow> KGC_init cfg = Inl (Exception ''Unknown model type!'')"
  by (simp add: KGC_init_def model_types_def)

lemma KGC_init_known:
  "model cfg = None \<or> (\<exists>m \<in> set model_types. model cfg = Some m) \<Longrightarrow> \<exists>k. KGC_init cfg = Inr k"
  by (auto simp: KGC_init_def model_types_def)

lemma TextClassifier_init_known:
  "g \<in> set graph_types \<Longrightarrow> \<exists>k. TextClassifier_init g = Inr k"
  by (auto simp: TextClassifier_init_def graph_types_def)

text \<open>
  What the text-classification script does on an unknown graph type: the data loader
  step comes first and stops with the \<^verbatim>\<open>NameError\<close>, before \<^verbatim>\<open>TextClassifier\<close> is
  constructed.
\<close>

lemma tc_main_unknown:
  "g \<notin> set graph_types \<Longrightarrow> tc_main g = ([], Inl (NameError ''config''))"
  by (simp add: tc_main_def ModelHandler_init_def build_dataloader_def graph_types_def)

lemma tc_main_known:
  "g \<in> set graph_types \<Longrightarrow>
     tc_main g =
       ([Build_dataloader, Build_model, Build_optimizer, Build_evaluation,
         Train, Load_checkpoint, Test, Remove_checkpoint], Inr ())"
  by (auto simp: tc_main_def ModelHandler_init_def build_dataloader_def
      TextClassifier_init_def graph_types_def)

lemmas evaluation_defs =
  ranking_and_hits_this_def summarise_def np_mean_def reciprocals_def record_ranks_def
  hit_def fresh_def filtered_rank_def rank0_def np_where_first_def argsort_desc_def
  filter_step_def zero_all_known_def

subsection \<open>Evaluating float64 roundings\<close>

lemma exponent_up_unfold:
  "0 < n \<Longrightarrow> exponent_up n x = (if x < 2 then 0 else exponent_up (n - 1) (x / 2) + 1)"
  by (cases n) simp_all

lemma exponent_down_unfold:
  "0 < n \<Longrightarrow> exponent_down n x = (if 1 \<le> x then 0 else exponent_down (n - 1) (2 * x) - 1)"
  by (cases n) simp_all

lemmas f64_eval = f64_def exponent_def exponent_up_unfold exponent_down_unfold
  round_half_even_def Let_def

lemma uneven_run:
  "run_batches fresh [uneven_batch] =
     Inr \<lparr>hits_left = replicate 10 [1, 1, 1],
          hits_right = [1, 1, 0] # replicate 9 [1, 1, 1],
          hits = [1, 1, 1, 1, 1, 0] # replicate 9 [1, 1, 1, 1, 1, 1],
          ranks = [1, 1, 1, 1, 1, 2], ranks_left = [1, 1, 1], ranks_right = [1, 1, 2]\<rparr>"
  by (simp add: uneven_batch_def two_entities_def evaluation_defs numeral_eq_Suc)

lemma sum_list_interleave_nat:
  fixes ls rs :: "nat list"
  shows "length ls = length rs \<Longrightarrow> sum_list (interleave ls rs) = sum_list ls + sum_list rs"
  by (induction ls rs rule: list_induct2) simp_all

section \<open>The claims\<close>

text \<open>
  C5. For a target inside the score row and a filter whose indices are inside the row,
  the filter, sort and locate steps raise nothing, and the rank they produce (one plus
  the position of the target in the descending order of the filtered row) is at least 1
  and at most the number of entities, the length of the row.
\<close>

theorem rank_within_bounds:
  assumes "target < length row" and "\<forall>j\<in>set flt. j < length row"
  shows "\<exists>r. filtered_rank row target flt = Inr r \<and> 1 \<le> r \<and> r \<le> length row"
  using assms by (rule filtered_rank_total)

theorem rank_within_bounds_witness:
  "(4::nat) < length [0.1, 0.9, 0.3, 0.05, 0.2 :: real] \<and>
   set [1::nat] \<subseteq> {..<length [0.1, 0.9, 0.3, 0.05, 0.2 :: real]} \<and>
   (\<exists>r. filtered_rank [0.1, 0.9, 0.3, 0.05, 0.2] 4 [1] = Inr r \<and> 1 \<le> r \<and>
        r \<le> length [0.1, 0.9, 0.3, 0.05, 0.2 :: real])"
  using rank_within_bounds [of 4 "[0.1, 0.9, 0.3, 0.05, 0.2]" "[1]"] by simp

text \<open>
  C8. Running the filter step (zero the filter indices, restore the saved target score)
  a second time, on the row the first run produced and with the same target and filter,
  gives the same row again, and so the same rank.
\<close>

theorem filter_step_idempotent:
  assumes "filter_step row target flt = Inr once"
  shows "filter_step once target flt = Inr once \<and>
         filtered_rank once target flt = filtered_rank row target flt"
proof -
  from assms have t: "target < length row" and f: "\<forall>j\<in>set flt. j < length row"
    and once: "once = filtered_row row target flt"
    by (simp_all add: filter_step_Inr)
  have again: "filter_step once target flt = Inr once"
    using t f by (simp add: once filter_step_Inr filtered_row_idem)
  then show ?thesis
    using assms by (simp add: filtered_rank_def)
qed

theorem filter_step_idempotent_witness:
  "filter_step [0.1, 0.9, 0.3, 0.05, 0.2] 1 [1, 3] = Inr [0.1, 0.9, 0.3, 0, 0.2] \<and>
   filter_step [0.1, 0.9, 0.3, 0, 0.2] 1 [1, 3] = Inr [0.1, 0.9, 0.3, 0, 0.2] \<and>
   filtered_rank [0.1, 0.9, 0.3, 0, 0.2] 1 [1, 3] = filtered_rank [0.1, 0.9, 0.3, 0.05, 0.2] 1 [1, 3]"
proof -
  have once: "filter_step [0.1, 0.9, 0.3, 0.05, 0.2] 1 [1, 3] = Inr [0.1, 0.9, 0.3, 0, 0.2]"
    by (simp add: filter_step_def zero_all_known_def)
  from filter_step_idempotent [OF once] once show ?thesis by simp
qed

text \<open>
  C9. The two worked scenarios with five entities and scores 0.1, 0.9, 0.3, 0.05, 0.2.
  Target 1 with an empty filter: rank 1, and a pass over that single query reports
  hits@1 = 1.0 and returns a reciprocal rank of 1.0. Target 4 with filter 1: the
  filtered row is 0.1, 0, 0.3, 0.05, 0.2, the rank of entity 4 is 2, hits@1 = 0.0 and
  hits@2 = 1.0.
\<close>

theorem worked_scenarios:
  "filtered_rank [0.1, 0.9, 0.3, 0.05, 0.2] 1 [] = Inr 1 \<and>
   hit (1 - 1) 0 = 1 \<and>
   reciprocals [1] = [1] \<and>
   (\<exists>rep. ranking_and_hits_this [[scenario 1 []]] = Inr (rep, Some 1) \<and>
          hits_at rep ! 0 = Some 1 \<and> mean_rank rep = Some 1) \<and>
   filter_step [0.1, 0.9, 0.3, 0.05, 0.2] 4 [1] = Inr [0.1, 0, 0.3, 0.05, 0.2] \<and>
   argsort_desc [0.1, 0, 0.3, 0.05, 0.2] = [2, 4, 0, 3, 1] \<and>
   filtered_rank [0.1, 0.9, 0.3, 0.05, 0.2] 4 [1] = Inr 2 \<and>
   hit (2 - 1) 0 = 0 \<and>
   hit (2 - 1) 1 = 1 \<and>
   (\<exists>rep. ranking_and_hits_this [[scenario 4 [1]]] = Inr (rep, Some (1 / 2)) \<and>
          hits_at rep ! 0 = Some 0 \<and> hits_at rep ! 1 = Some 1 \<and> mean_rank rep = Some 2)"
  by (simp add: scenario_def evaluation_defs)

text \<open>
  C1. When the target of a query occurs in the query's own filter, the filter step leaves
  the target's score as it was (it is read before the zeroing and written back after it),
  the filtered row is the row obtained with the target taken out of the filter, and so
  is the rank. For a whole pass: taking every target out of its own filters changes
  nothing in what \<^verbatim>\<open>ranking_and_hits_this\<close> reports and returns.
\<close>

theorem target_kept_in_own_filter:
  assumes "target \<in> set flt" and "filter_step row target flt = Inr filtered"
  shows "filtered ! target = row ! target \<and>
         filter_step row target (removeAll target flt) = Inr filtered \<and>
         filtered_rank row target flt = filtered_rank row target (removeAll target flt) \<and>
         ranking_and_hits_this (map (map without_target) bs) = ranking_and_hits_this bs"
proof -
  from assms(2) have "target < length row" and "filtered = filtered_row row target flt"
    by (simp_all add: filter_step_Inr)
  then have "filtered ! target = row ! target"
    by (simp add: filtered_row_def)
  moreover have "filter_step row target (removeAll target flt) = Inr filtered"
    using assms(2) by (simp add: filter_step_removeAll)
  moreover have "filtered_rank row target flt = filtered_rank row target (removeAll target flt)"
    by (simp add: filtered_rank_def filter_step_removeAll)
  moreover have "ranking_and_hits_this (map (map without_target) bs) = ranking_and_hits_this bs"
    by (simp add: ranking_and_hits_this_def run_batches_without_target)
  ultimately show ?thesis by simp
qed

theorem target_kept_in_own_filter_witness:
  "(1::nat) \<in> set [1, 3] \<and>
   filter_step [0.1, 0.9, 0.3, 0.05, 0.2] 1 [1, 3] = Inr [0.1, 0.9, 0.3, 0, 0.2] \<and>
   [0.1, 0.9, 0.3, 0, 0.2 :: real] ! 1 = [0.1, 0.9, 0.3, 0.05, 0.2] ! 1 \<and>
   filter_step [0.1, 0.9, 0.3, 0.05, 0.2] 1 [3] = Inr [0.1, 0.9, 0.3, 0, 0.2] \<and>
   filtered_rank [0.1, 0.9, 0.3, 0.05, 0.2] 1 [1, 3] = filtered_rank [0.1, 0.9, 0.3, 0.05, 0.2] 1 [3] \<and>
   ranking_and_hits_this [[without_target (scenario 1 [1, 3])]] =
     ranking_and_hits_this [[scenario 1 [1, 3]]]"
proof -
  have mem: "(1::nat) \<in> set [1, 3]" by simp
  have step: "filter_step [0.1, 0.9, 0.3, 0.05, 0.2] 1 [1, 3] = Inr [0.1, 0.9, 0.3, 0, 0.2]"
    by (simp add: filter_step_def zero_all_known_def)
  from target_kept_in_own_filter [OF mem step, of "[[scenario 1 [1, 3]]]"] mem step
  show ?thesis by simp
qed

text \<open>
  C3. For a pass with at least one example (targets and filter indices inside the score
  rows), \<^verbatim>\<open>ranking_and_hits_this\<close> returns the arithmetic mean of 1/rank over the combined
  rank list. The combined list alternates the rank of the first direction and the rank
  of the second direction of each example, so it holds exactly one rank of each
  direction per example. The returned value is the reported combined mean reciprocal
  rank.
\<close>

theorem returns_combined_mrr:
  assumes "list_all (list_all in_range) bs" and "concat bs \<noteq> []"
  shows "\<exists>rep mrr ls rs.
           ranking_and_hits_this bs = Inr (rep, Some mrr) \<and>
           map left_rank (concat bs) = map Inr ls \<and>
           map right_rank (concat bs) = map Inr rs \<and>
           mrr = sum_list (map (\<lambda>r. 1 / real r) (interleave ls rs)) /
                 real (length (interleave ls rs)) \<and>
           length (interleave ls rs) = 2 * length (concat bs) \<and>
           mean_reciprocal_rank rep = Some mrr"
proof -
  from pass_accumulators [OF assms(1)] obtain a ls rs where
    a: "run_batches fresh bs = Inr a" "tallied a"
    "map left_rank (concat bs) = map Inr ls" "map right_rank (concat bs) = map Inr rs"
    "ranks_left a = ls" "ranks_right a = rs" "ranks a = interleave ls rs"
    "length ls = length (concat bs)" "length rs = length (concat bs)"
    by blast
  have len: "length (interleave ls rs) = 2 * length (concat bs)"
    using a(8,9) by (simp add: length_interleave)
  with assms(2) have ne: "reciprocals (interleave ls rs) \<noteq> []"
    by (auto simp: reciprocals_def)
  let ?m = "sum_list (map (\<lambda>r. 1 / real r) (interleave ls rs)) / real (length (interleave ls rs))"
  have m: "np_mean (reciprocals (interleave ls rs)) = Some ?m"
    using np_mean_Some [OF ne] by (simp add: reciprocals_def)
  have "ranking_and_hits_this bs = Inr (summarise a, Some ?m)"
    using a(1,7) m by (simp add: ranking_and_hits_this_def)
  moreover have "mean_reciprocal_rank (summarise a) = Some ?m"
    using a(7) m by (simp add: summarise_def)
  ultimately show ?thesis
    using a(3,4) len by blast
qed

theorem returns_combined_mrr_witness:
  "list_all (list_all in_range) [[scenario 4 [1]]] \<and> concat [[scenario 4 [1]]] \<noteq> [] \<and>
   (\<exists>rep mrr ls rs.
           ranking_and_hits_this [[scenario 4 [1]]] = Inr (rep, Some mrr) \<and>
           map left_rank (concat [[scenario 4 [1]]]) = map Inr ls \<and>
           map right_rank (concat [[scenario 4 [1]]]) = map Inr rs \<and>
           mrr = sum_list (map (\<lambda>r. 1 / real r) (interleave ls rs)) /
                 real (length (interleave ls rs)) \<and>
           length (interleave ls rs) = 2 * length (concat [[scenario 4 [1]]]) \<and>
           mean_reciprocal_rank rep = Some mrr)"
proof -
  have wf: "list_all (list_all in_range) [[scenario 4 [1]]]"
    by (simp add: in_range_def scenario_def)
  have ne: "concat [[scenario 4 [1]]] \<noteq> []" by simp
  from returns_combined_mrr [OF wf ne] wf ne show ?thesis by blast
qed

text \<open>
  C6. For the rank lists of one pass with at least one example, the hit rates are
  monotone in the level: for levels \<open>i \<le> j\<close> below 10 (hits@(i+1) and hits@(j+1)) the
  rate at level \<open>i\<close> is at most the rate at level \<open>j\<close>, in the combined lists and in
  the lists of each direction. Each entry is the indicator of \<^verbatim>\<open>rank - 1 <= level\<close>.
\<close>

theorem hits_monotone_in_k:
  assumes "list_all (list_all in_range) bs" and "concat bs \<noteq> []" and "i \<le> j" and "j < 10"
  shows "\<exists>rep mrr. ranking_and_hits_this bs = Inr (rep, mrr) \<and>
           (\<exists>x y. hits_at rep ! i = Some x \<and> hits_at rep ! j = Some y \<and> x \<le> y) \<and>
           (\<exists>x y. hits_left_at rep ! i = Some x \<and> hits_left_at rep ! j = Some y \<and> x \<le> y) \<and>
           (\<exists>x y. hits_right_at rep ! i = Some x \<and> hits_right_at rep ! j = Some y \<and> x \<le> y)"
proof -
  from pass_accumulators [OF assms(1)] obtain a ls rs where
    a: "run_batches fresh bs = Inr a" "tallied a"
    "ranks_left a = ls" "ranks_right a = rs" "ranks a = interleave ls rs"
    "length ls = length (concat bs)" "length rs = length (concat bs)"
    by blast
  from a(6,7) assms(2) have ls: "ls \<noteq> []" and rs: "rs \<noteq> []" by auto
  have "length (interleave ls rs) = 2 * length ls"
    using a(6,7) by (simp add: length_interleave)
  with ls have both: "interleave ls rs \<noteq> []" by auto
  have i: "i < 10" using assms(3,4) by simp
  have nth: "hits a ! l = hit_flags l (interleave ls rs)"
    "hits_left a ! l = hit_flags l ls" "hits_right a ! l = hit_flags l rs" if "l < 10" for l
    using a(2,3,4,5) that by (simp_all add: tallied_def)
  have at: "hits_at (summarise a) ! l = np_mean (hit_flags l (interleave ls rs))"
    "hits_left_at (summarise a) ! l = np_mean (hit_flags l ls)"
    "hits_right_at (summarise a) ! l = np_mean (hit_flags l rs)" if "l < 10" for l
    using that by (simp_all add: summarise_def nth)
  have "ranking_and_hits_this bs = Inr (summarise a, np_mean (reciprocals (ranks a)))"
    using a(1) by (simp add: ranking_and_hits_this_def)
  moreover have "\<exists>x y. hits_at (summarise a) ! i = Some x \<and> hits_at (summarise a) ! j = Some y \<and> x \<le> y"
    using np_mean_hit_flags_mono [OF assms(3) both] by (simp add: at i assms(4))
  moreover have "\<exists>x y. hits_left_at (summarise a) ! i = Some x \<and> hits_left_at (summarise a) ! j = Some y \<and> x \<le> y"
    using np_mean_hit_flags_mono [OF assms(3) ls] by (simp add: at i assms(4))
  moreover have "\<exists>x y. hits_right_at (summarise a) ! i = Some x \<and> hits_right_at (summarise a) ! j = Some y \<and> x \<le> y"
    using np_mean_hit_flags_mono [OF assms(3) rs] by (simp add: at i assms(4))
  ultimately show ?thesis by blast
qed

theorem hits_monotone_in_k_witness:
  "list_all (list_all in_range) [[scenario 4 [1]]] \<and> concat [[scenario 4 [1]]] \<noteq> [] \<and>
   (0::nat) \<le> 1 \<and> (1::nat) < 10 \<and>
   (\<exists>rep mrr. ranking_and_hits_this [[scenario 4 [1]]] = Inr (rep, mrr) \<and>
           (\<exists>x y. hits_at rep ! 0 = Some x \<and> hits_at rep ! 1 = Some y \<and> x \<le> y) \<and>
           (\<exists>x y. hits_left_at rep ! 0 = Some x \<and> hits_left_at rep ! 1 = Some y \<and> x \<le> y) \<and>
           (\<exists>x y. hits_right_at rep ! 0 = Some x \<and> hits_right_at rep ! 1 = Some y \<and> x \<le> y))"
proof -
  have wf: "list_all (list_all in_range) [[scenario 4 [1]]]"
    by (simp add: in_range_def scenario_def)
  have ne: "concat [[scenario 4 [1]]] \<noteq> []" by simp
  have le: "(0::nat) \<le> 1" and lt: "(1::nat) < 10" by simp_all
  from hits_monotone_in_k [OF wf ne le lt] wf ne le lt show ?thesis by blast
qed

text \<open>
  C7. For a non-empty rank list whose entries are all at least 1, the mean reciprocal
  rank is greater than 0 and at most 1, and it is 1 exactly when every rank is 1.
  (\<open>pass_mrr_in_unit_interval\<close> above applies this to the value a pass returns.)
\<close>

theorem mrr_in_unit_interval:
  assumes "rs \<noteq> []" and "\<forall>r\<in>set rs. 1 \<le> r"
  shows "\<exists>m. np_mean (reciprocals rs) = Some m \<and> 0 < m \<and> m \<le> 1 \<and>
              (m = 1 \<longleftrightarrow> (\<forall>r\<in>set rs. r = 1))"
  using assms by (rule mrr_bounds)

theorem mrr_in_unit_interval_witness:
  "[1, 2 :: nat] \<noteq> [] \<and> list_all (\<lambda>r. 1 \<le> r) [1, 2 :: nat] \<and>
   (\<exists>m. np_mean (reciprocals [1, 2]) = Some m \<and> 0 < m \<and> m \<le> 1 \<and>
        (m = 1 \<longleftrightarrow> (\<forall>r\<in>set [1, 2 :: nat]. r = 1))) \<and>
   np_mean (reciprocals [1, 2]) = Some (3 / 4) \<and>
   np_mean (reciprocals [1, 1]) = Some 1"
proof -
  have ne: "[1, 2 :: nat] \<noteq> []" by simp
  have ge: "\<forall>r\<in>set [1, 2 :: nat]. 1 \<le> r" by simp
  have vals: "np_mean (reciprocals [1, 2]) = Some (3 / 4)" "np_mean (reciprocals [1, 1]) = Some 1"
    by (simp_all add: np_mean_def reciprocals_def)
  from mrr_in_unit_interval [OF ne ge] vals show ?thesis
    by simp
qed

text \<open>
  C10, as stated, fails on the float64 means the code prints. For the batch
  \<open>uneven_batch\<close> the ranks are 1, 1, 1 in the first direction and 1, 1, 2 in the second.
  The combined mean rank is the double nearest to 7/6, while the two direction means are
  1 and the double nearest to 4/3; their average is another number, whether it is taken
  exactly or in float64. The same happens for hits@1 (5/6 against 1 and 2/3) and for
  the mean reciprocal rank (11/12 against 1 and 5/6).
\<close>

theorem float_average_counterexample:
  "(\<exists>a. run_batches fresh [uneven_batch] = Inr a \<and>
        ranks_left a = [1, 1, 1] \<and> ranks_right a = [1, 1, 2] \<and> ranks a = [1, 1, 1, 1, 1, 2] \<and>
        mean_rank_left (summarise_f64 a) = Some 1 \<and>
        mean_rank_right (summarise_f64 a) = Some (6004799503160661 / 2 ^ 52) \<and>
        mean_rank (summarise_f64 a) = Some (5254199565265579 / 2 ^ 52) \<and>
        hits_left_at (summarise_f64 a) ! 0 = Some 1 \<and>
        hits_right_at (summarise_f64 a) ! 0 = Some (6004799503160661 / 2 ^ 53) \<and>
        hits_at (summarise_f64 a) ! 0 = Some (7505999378950827 / 2 ^ 53) \<and>
        mean_reciprocal_rank_left (summarise_f64 a) = Some 1 \<and>
        mean_reciprocal_rank_right (summarise_f64 a) = Some (7505999378950827 / 2 ^ 53) \<and>
        mean_reciprocal_rank (summarise_f64 a) = Some (8256599316845909 / 2 ^ 53)) \<and>
   (5254199565265579 / 2 ^ 52 :: real) \<noteq> (1 + 6004799503160661 / 2 ^ 52) / 2 \<and>
   (5254199565265579 / 2 ^ 52 :: real) \<noteq> f64 (f64 (1 + 6004799503160661 / 2 ^ 52) / 2) \<and>
   (7505999378950827 / 2 ^ 53 :: real) \<noteq> (1 + 6004799503160661 / 2 ^ 53) / 2 \<and>
   (7505999378950827 / 2 ^ 53 :: real) \<noteq> f64 (f64 (1 + 6004799503160661 / 2 ^ 53) / 2) \<and>
   (8256599316845909 / 2 ^ 53 :: real) \<noteq> (1 + 7505999378950827 / 2 ^ 53) / 2 \<and>
   (8256599316845909 / 2 ^ 53 :: real) \<noteq> f64 (f64 (1 + 7505999378950827 / 2 ^ 53) / 2)"
proof -
  have means: "mean_f64 [1, 1, 1] = Some 1"
    "mean_f64 [1, 1, 2] = Some (6004799503160661 / 2 ^ 52)"
    "mean_f64 [1, 1, 1, 1, 1, 2] = Some (5254199565265579 / 2 ^ 52)"
    "mean_f64 [1, 1, 0] = Some (6004799503160661 / 2 ^ 53)"
    "mean_f64 [1, 1, 1, 1, 1, 0] = Some (7505999378950827 / 2 ^ 53)"
    "mean_f64 [1, 1, 1 / 2] = Some (7505999378950827 / 2 ^ 53)"
    "mean_f64 [1, 1, 1, 1, 1, 1 / 2] = Some (8256599316845909 / 2 ^ 53)"
    by (simp_all add: mean_f64_def f64_sum_def f64_eval)
  have half: "f64 (1 / 2) = 1 / 2" "f64 1 = 1"
    by (simp_all add: f64_eval)
  have pass: "\<exists>a. run_batches fresh [uneven_batch] = Inr a \<and>
        ranks_left a = [1, 1, 1] \<and> ranks_right a = [1, 1, 2] \<and> ranks a = [1, 1, 1, 1, 1, 2] \<and>
        mean_rank_left (summarise_f64 a) = Some 1 \<and>
        mean_rank_right (summarise_f64 a) = Some (6004799503160661 / 2 ^ 52) \<and>
        mean_rank (summarise_f64 a) = Some (5254199565265579 / 2 ^ 52) \<and>
        hits_left_at (summarise_f64 a) ! 0 = Some 1 \<and>
        hits_right_at (summarise_f64 a) ! 0 = Some (6004799503160661 / 2 ^ 53) \<and>
        hits_at (summarise_f64 a) ! 0 = Some (7505999378950827 / 2 ^ 53) \<and>
        mean_reciprocal_rank_left (summarise_f64 a) = Some 1 \<and>
        mean_reciprocal_rank_right (summarise_f64 a) = Some (7505999378950827 / 2 ^ 53) \<and>
        mean_reciprocal_rank (summarise_f64 a) = Some (8256599316845909 / 2 ^ 53)"
    unfolding uneven_run
    by (simp add: summarise_f64_def reciprocals_f64_def means half)
  have diff: "(5254199565265579 / 2 ^ 52 :: real) \<noteq> (1 + 6004799503160661 / 2 ^ 52) / 2"
    "(5254199565265579 / 2 ^ 52 :: real) \<noteq> f64 (f64 (1 + 6004799503160661 / 2 ^ 52) / 2)"
    "(7505999378950827 / 2 ^ 53 :: real) \<noteq> (1 + 6004799503160661 / 2 ^ 53) / 2"
    "(7505999378950827 / 2 ^ 53 :: real) \<noteq> f64 (f64 (1 + 6004799503160661 / 2 ^ 53) / 2)"
    "(8256599316845909 / 2 ^ 53 :: real) \<noteq> (1 + 7505999378950827 / 2 ^ 53) / 2"
    "(8256599316845909 / 2 ^ 53 :: real) \<noteq> f64 (f64 (1 + 7505999378950827 / 2 ^ 53) / 2)"
    by (simp_all add: f64_eval)
  from pass diff show ?thesis by blast
qed

text \<open>
  C10, amended. For a pass with \<open>n \<ge> 1\<close> examples, every example adds one left entry and
  one right entry to each combined list: each direction list has \<open>n\<close> entries and the
  combined list \<open>2n\<close>, and the sum of the combined list is the sum of the two direction
  sums, for the ranks, for the reciprocal ranks and for the hit indicators of every level
  \<open>k\<close> below 10. Hence the exact, unrounded means satisfy: combined mean = (left mean +
  right mean) / 2.
\<close>

theorem combined_sums_and_counts:
  assumes "list_all (list_all in_range) bs" and "concat bs \<noteq> []" and "k < 10"
  shows "\<exists>a n. run_batches fresh bs = Inr a \<and> n = length (concat bs) \<and>
     length (ranks_left a) = n \<and> length (ranks_right a) = n \<and> length (ranks a) = 2 * n \<and>
     sum_list (ranks a) = sum_list (ranks_left a) + sum_list (ranks_right a) \<and>
     sum_list (reciprocals (ranks a)) =
       sum_list (reciprocals (ranks_left a)) + sum_list (reciprocals (ranks_right a)) \<and>
     length (hits_left a ! k) = n \<and> length (hits_right a ! k) = n \<and>
     length (hits a ! k) = 2 * n \<and>
     sum_list (hits a ! k) = sum_list (hits_left a ! k) + sum_list (hits_right a ! k) \<and>
     real (sum_list (ranks a)) / real (2 * n) =
       (real (sum_list (ranks_left a)) / real n + real (sum_list (ranks_right a)) / real n) / 2 \<and>
     sum_list (reciprocals (ranks a)) / real (2 * n) =
       (sum_list (reciprocals (ranks_left a)) / real n +
        sum_list (reciprocals (ranks_right a)) / real n) / 2 \<and>
     sum_list (hits a ! k) / real (2 * n) =
       (sum_list (hits_left a ! k) / real n + sum_list (hits_right a ! k) / real n) / 2"
proof -
  from pass_accumulators [OF assms(1)] obtain a ls rs where
    a: "run_batches fresh bs = Inr a" "tallied a"
    "ranks_left a = ls" "ranks_right a = rs" "ranks a = interleave ls rs"
    "length ls = length (concat bs)" "length rs = length (concat bs)"
    by blast
  let ?n = "length (concat bs)"
  from a(6,7) have eq: "length ls = length rs" by simp
  have nth: "hits a ! k = hit_flags k (interleave ls rs)"
    "hits_left a ! k = hit_flags k ls" "hits_right a ! k = hit_flags k rs"
    using a(2,3,4,5) assms(3) by (simp_all add: tallied_def)
  have len: "length (interleave ls rs) = 2 * ?n"
    using eq a(6) by (simp add: length_interleave)
  have s1: "sum_list (ranks a) = sum_list (ranks_left a) + sum_list (ranks_right a)"
    using eq by (simp add: a(3,4,5) sum_list_interleave_nat)
  have s2: "sum_list (reciprocals (ranks a)) =
       sum_list (reciprocals (ranks_left a)) + sum_list (reciprocals (ranks_right a))"
    using eq by (simp add: a(3,4,5) reciprocals_def sum_list_interleave)
  have s3: "sum_list (hits a ! k) = sum_list (hits_left a ! k) + sum_list (hits_right a ! k)"
    using eq by (simp add: nth hit_flags_def sum_list_interleave)
  have avg: "(x + y) / real (2 * ?n) = (x / real ?n + y / real ?n) / 2" for x y :: real
    by (simp add: add_divide_distrib)
  have "run_batches fresh bs = Inr a \<and> ?n = length (concat bs) \<and>
     length (ranks_left a) = ?n \<and> length (ranks_right a) = ?n \<and> length (ranks a) = 2 * ?n \<and>
     sum_list (ranks a) = sum_list (ranks_left a) + sum_list (ranks_right a) \<and>
     sum_list (reciprocals (ranks a)) =
       sum_list (reciprocals (ranks_left a)) + sum_list (reciprocals (ranks_right a)) \<and>
     length (hits_left a ! k) = ?n \<and> length (hits_right a ! k) = ?n \<and>
     length (hits a ! k) = 2 * ?n \<and>
     sum_list (hits a ! k) = sum_list (hits_left a ! k) + sum_list (hits_right a ! k) \<and>
     real (sum_list (ranks a)) / real (2 * ?n) =
       (real (sum_list (ranks_left a)) / real ?n + real (sum_list (ranks_right a)) / real ?n) / 2 \<and>
     sum_list (reciprocals (ranks a)) / real (2 * ?n) =
       (sum_list (reciprocals (ranks_left a)) / real ?n +
        sum_list (reciprocals (ranks_right a)) / real ?n) / 2 \<and>
     sum_list (hits a ! k) / real (2 * ?n) =
       (sum_list (hits_left a ! k) / real ?n + sum_list (hits_right a ! k) / real ?n) / 2"
    unfolding s1 s2 s3 of_nat_add avg
    using a(1,3,4,5,6,7) len by (simp add: nth hit_flags_def)
  then show ?thesis by blast
qed

theorem combined_sums_and_counts_witness:
  "list_all (list_all in_range) [uneven_batch] \<and> concat [uneven_batch] \<noteq> [] \<and> (0::nat) < 10 \<and>
   (\<exists>a n. run_batches fresh [uneven_batch] = Inr a \<and> n = length (concat [uneven_batch]) \<and>
     length (ranks_left a) = n \<and> length (ranks_right a) = n \<and> length (ranks a) = 2 * n \<and>
     sum_list (ranks a) = sum_list (ranks_left a) + sum_list (ranks_right a) \<and>
     sum_list (reciprocals (ranks a)) =
       sum_list (reciprocals (ranks_left a)) + sum_list (reciprocals (ranks_right a)) \<and>
     length (hits_left a ! 0) = n \<and> length (hits_right a ! 0) = n \<and>
     length (hits a ! 0) = 2 * n \<and>
     sum_list (hits a ! 0) = sum_list (hits_left a ! 0) + sum_list (hits_right a ! 0) \<and>
     real (sum_list (ranks a)) / real (2 * n) =
       (real (sum_list (ranks_left a)) / real n + real (sum_list (ranks_right a)) / real n) / 2 \<and>
     sum_list (reciprocals (ranks a)) / real (2 * n) =
       (sum_list (reciprocals (ranks_left a)) / real n +
        sum_list (reciprocals (ranks_right a)) / real n) / 2 \<and>
     sum_list (hits a ! 0) / real (2 * n) =
       (sum_list (hits_left a ! 0) / real n + sum_list (hits_right a ! 0) / real n) / 2)"
proof -
  have wf: "list_all (list_all in_range) [uneven_batch]"
    by (simp add: in_range_def uneven_batch_def two_entities_def)
  have ne: "concat [uneven_batch] \<noteq> []" by (simp add: uneven_batch_def)
  have lt: "(0::nat) < 10" by simp
  from combined_sums_and_counts [OF wf ne lt] wf ne lt show ?thesis by blast
qed

text \<open>
  C2. The filter is applied as a list of indices. The zeroing statement writes 0.0 at
  every index that occurs in the filter tensor (the index 0 and repeated indices like
  any other); after the target's score is written back, every filter index other than
  the target still holds 0.0 when the rows are sorted. In particular a filter that
  contains 0 zeroes the score of entity 0 whenever entity 0 is not the target. A filter
  row that consists of zero padding only is an empty row for the graph construction,
  but as a filter it changes the position of entity 0 (and the rank of the target)
  against the empty filter: on the scores 0.5, 0.3 with target 1, entity 0 moves from
  position 0 to position 1 and the target from rank 2 to rank 1.
\<close>

theorem filter_is_raw_index_list:
  assumes "filter_step row target flt = Inr filtered"
  shows "(\<exists>zeroed. zero_all_known row flt = Inr zeroed \<and> (\<forall>j\<in>set flt. zeroed ! j = 0) \<and>
                   filtered = zeroed[target := row ! target]) \<and>
         (\<forall>j\<in>set flt. j \<noteq> target \<longrightarrow> filtered ! j = 0) \<and>
         (0 \<in> set flt \<and> target \<noteq> 0 \<longrightarrow> filtered ! 0 = 0) \<and>
         preprocess_row 7 1 [0, 0] = [] \<and>
         filter_step [0.5, 0.3] 1 [0, 0] = Inr [0, 0.3] \<and>
         filter_step [0.5, 0.3] 1 [] = Inr [0.5, 0.3] \<and>
         rank0 [0, 0.3] 0 = Inr 1 \<and> rank0 [0.5, 0.3] 0 = Inr 0 \<and>
         filtered_rank [0.5, 0.3] 1 [0, 0] = Inr 1 \<and> filtered_rank [0.5, 0.3] 1 [] = Inr 2"
proof -
  from assms have t: "target < length row" and f: "\<forall>j\<in>set flt. j < length row"
    and filtered: "filtered = filtered_row row target flt"
    by (simp_all add: filter_step_Inr)
  let ?z = "fold (\<lambda>j r. r[j := 0]) flt row"
  have z: "zero_all_known row flt = Inr ?z"
    using f by (simp add: zero_all_known_Inr)
  have "\<forall>j\<in>set flt. ?z ! j = 0"
    using f by (simp add: nth_fold_zero)
  moreover have "filtered = ?z[target := row ! target]"
    using assms t z by (simp add: filter_step_def)
  ultimately have first: "\<exists>zeroed. zero_all_known row flt = Inr zeroed \<and>
      (\<forall>j\<in>set flt. zeroed ! j = 0) \<and> filtered = zeroed[target := row ! target]"
    using z by blast
  have second: "\<forall>j\<in>set flt. j \<noteq> target \<longrightarrow> filtered ! j = 0"
    using f by (simp add: filtered filtered_row_def)
  then have third: "0 \<in> set flt \<and> target \<noteq> 0 \<longrightarrow> filtered ! 0 = 0"
    by auto
  have concrete: "preprocess_row 7 1 [0, 0] = [] \<and>
         filter_step [0.5, 0.3] 1 [0, 0] = Inr [0, 0.3] \<and>
         filter_step [0.5, 0.3] 1 [] = Inr [0.5, 0.3] \<and>
         rank0 [0, 0.3] 0 = Inr 1 \<and> rank0 [0.5, 0.3] 0 = Inr 0 \<and>
         filtered_rank [0.5, 0.3] 1 [0, 0] = Inr 1 \<and> filtered_rank [0.5, 0.3] 1 [] = Inr 2"
    by (simp add: evaluation_defs)
  from first second third concrete show ?thesis by blast
qed

theorem filter_is_raw_index_list_witness:
  "filter_step [0.5, 0.3, 0.9] 1 [2, 0, 0] = Inr [0, 0.3, 0] \<and>
   (\<exists>zeroed. zero_all_known [0.5, 0.3, 0.9] [2, 0, 0] = Inr zeroed \<and>
        list_all (\<lambda>j. zeroed ! j = 0) [2, 0, 0] \<and> [0, 0.3, 0] = zeroed[1 := [0.5, 0.3, 0.9] ! 1]) \<and>
   [0, 0.3, 0 :: real] ! 2 = 0 \<and> [0, 0.3, 0 :: real] ! 0 = 0 \<and>
   preprocess_row 7 1 [2, 0, 0] = [(1, 7, 2)]"
proof -
  have step: "filter_step [0.5, 0.3, 0.9] 1 [2, 0, 0] = Inr [0, 0.3, 0]"
    by (simp add: filter_step_def zero_all_known_def)
  from filter_is_raw_index_list [OF step] step show ?thesis
    by (simp add: list_all_iff)
qed

text \<open>
  C4, as stated, fails on the knowledge-graph script: for the unknown model type
  \<^verbatim>\<open>transe\<close> the message of the exception is the fixed text \<^verbatim>\<open>Unknown model type!\<close>, in
  which the supplied string does not occur.
\<close>

theorem message_counterexample:
  "KGC_init \<lparr>model = Some ''transe'', preprocess = False, resume = False, epochs = 1\<rparr> =
     Inl (Exception ''Unknown model type!'') \<and>
   ''transe'' \<notin> set model_types \<and>
   \<not> sublist ''transe'' ''Unknown model type!''"
  by (simp add: KGC_init_def model_types_def sublist_Cons_right)

text \<open>
  C4, amended. For a model-type string (knowledge-graph script) or a graph-type string
  (text-classification script) that is not one of the recognised variants, the model
  constructor raises an exception, and each script stops with an exception before any
  training or evaluation. The message of \<^verbatim>\<open>TextClassifier.__init__\<close> is
  \<^verbatim>\<open>Unknown graph_type: \<close> followed by the supplied string, so it names the supplied
  value; the message of \<^verbatim>\<open>KGC.__init__\<close> is the fixed text \<^verbatim>\<open>Unknown model type!\<close>
  whatever string was supplied: it names the option, the model type.
\<close>

theorem unknown_variant_fails_fast:
  assumes "model cfg = Some m" and "m \<notin> set model_types" and "g \<notin> set graph_types"
  shows "KGC_init cfg = Inl (Exception ''Unknown model type!'') \<and>
         sublist ''model type'' ''Unknown model type!'' \<and>
         (\<exists>trace. kg_main cfg dev_mrr = (trace, Inl (Exception ''Unknown model type!'')) \<and>
                  \<not> list_ex is_train_or_eval trace) \<and>
         TextClassifier_init g = Inl (RuntimeError (''Unknown graph_type: '' @ g)) \<and>
         sublist g (''Unknown graph_type: '' @ g) \<and>
         (\<exists>trace err. tc_main g = (trace, Inl err) \<and> \<not> list_ex is_train_or_test trace)"
proof -
  have kgc: "KGC_init cfg = Inl (Exception ''Unknown model type!'')"
    using assms(1,2) by (rule KGC_init_unknown)
  then have "\<exists>trace. kg_main cfg dev_mrr = (trace, Inl (Exception ''Unknown model type!'')) \<and>
                  \<not> list_ex is_train_or_eval trace"
    by (simp add: kg_main_def)
  moreover have "sublist ''model type'' ''Unknown model type!''"
    by (simp add: sublist_Cons_right)
  moreover have "TextClassifier_init g = Inl (RuntimeError (''Unknown graph_type: '' @ g))"
    using assms(3) by (simp add: TextClassifier_init_def graph_types_def)
  moreover have "sublist g (''Unknown graph_type: '' @ g)"
    by (rule sublist_append_leftI)
  moreover have "\<exists>trace err. tc_main g = (trace, Inl err) \<and> \<not> list_ex is_train_or_test trace"
    using assms(3)
    by (simp add: tc_main_def ModelHandler_init_def build_dataloader_def graph_types_def)
  ultimately show ?thesis using kgc by blast
qed

theorem unknown_variant_fails_fast_witness:
  "model \<lparr>model = Some ''transe'', preprocess = False, resume = True, epochs = 3\<rparr> = Some ''transe'' \<and>
   ''transe'' \<notin> set model_types \<and> ''amr'' \<notin> set graph_types \<and>
   KGC_init \<lparr>model = Some ''transe'', preprocess = False, resume = True, epochs = 3\<rparr> =
     Inl (Exception ''Unknown model type!'') \<and>
   sublist ''model type'' ''Unknown model type!'' \<and>
   (\<exists>trace. kg_main \<lparr>model = Some ''transe'', preprocess = False, resume = True, epochs = 3\<rparr>
               (\<lambda>epoch. Some 1) = (trace, Inl (Exception ''Unknown model type!'')) \<and>
            \<not> list_ex is_train_or_eval trace) \<and>
   TextClassifier_init ''amr'' = Inl (RuntimeError (''Unknown graph_type: '' @ ''amr'')) \<and>
   sublist ''amr'' (''Unknown graph_type: '' @ ''amr'') \<and>
   (\<exists>trace err. tc_main ''amr'' = (trace, Inl err) \<and> \<not> list_ex is_train_or_test trace)"
proof -
  have m: "model \<lparr>model = Some ''transe'', preprocess = False, resume = True, epochs = 3\<rparr> = Some ''transe''"
    by simp
  have k: "''transe'' \<notin> set model_types" by (simp add: model_types_def)
  have g: "''amr'' \<notin> set graph_types" by (simp add: graph_types_def)
  from unknown_variant_fails_fast [OF m k g, of "\<lambda>epoch. Some 1"] m k g show ?thesis
    by blast
qed

end
